theory Spec2Isabelle
  imports Complex_Main "HOL-Library.Sublist"
begin

section \<open>Python values used by the agent\<close>

text \<open>
  A Python \<open>str\<close> is a sequence of Unicode code points; it is modelled as a list of
  natural numbers, one per code point. \<open>U\<close> turns an ASCII literal into such a list.
\<close>

type_synonym pystr = "nat list"

definition U :: "string \<Rightarrow> pystr" where
  "U s = map of_char s"

text \<open>
  A Python \<open>float\<close> is kept by its exact value; \<open>json.loads\<close> also yields the three
  non-finite floats (\<open>NaN\<close>, \<open>Infinity\<close>, \<open>-Infinity\<close>).
\<close>

datatype pyfloat = Fin rat | PosInf | NegInf | NaN

text \<open>
  The values that \<open>json.loads\<close> and the HTTP clients hand to the agent. A \<open>dict\<close> is an
  association list in insertion order; a key is looked up at its first entry.
\<close>

datatype json =
    JNull
  | JBool bool
  | JInt int
  | JFloat pyfloat
  | JStr pystr
  | JArr "json list"
  | JObj "(pystr \<times> json) list"

type_synonym pydict = "(pystr \<times> json) list"

text \<open>The exceptions that the modelled code can raise; \<open>KeyError k\<close> carries the missing key.\<close>

datatype pyerr = KeyError pystr | IndexError | AttributeError | TypeError | JSONDecodeError

text \<open>The doubles written \<open>0.3\<close> and \<open>0.7\<close> in the source, by their exact values.\<close>

definition float_0_3 :: rat where
  "float_0_3 = 5404319552844595 / 18014398509481984"

definition float_0_7 :: rat where
  "float_0_7 = 3152519739159347 / 4503599627370496"

subsection \<open>Dictionaries\<close>

text \<open>\<open>d.get(k)\<close>, \<open>d.get(k, default)\<close>, \<open>k in d\<close>, \<open>d[k]\<close> and \<open>d[k] = v\<close>.\<close>

definition dict_get :: "pydict \<Rightarrow> pystr \<Rightarrow> json" where
  "dict_get d k = (case map_of d k of None \<Rightarrow> JNull | Some v \<Rightarrow> v)"

definition dict_get_default :: "pydict \<Rightarrow> pystr \<Rightarrow> json \<Rightarrow> json" where
  "dict_get_default d k dflt = (case map_of d k of None \<Rightarrow> dflt | Some v \<Rightarrow> v)"

definition dict_has :: "pydict \<Rightarrow> pystr \<Rightarrow> bool" where
  "dict_has d k = (map_of d k \<noteq> None)"

definition dict_item :: "pydict \<Rightarrow> pystr \<Rightarrow> pyerr + json" where
  "dict_item d k = (case map_of d k of None \<Rightarrow> Inl (KeyError k) | Some v \<Rightarrow> Inr v)"

fun dict_set :: "pydict \<Rightarrow> pystr \<Rightarrow> json \<Rightarrow> pydict" where
  "dict_set [] k v = [(k, v)]"
| "dict_set ((k', v') # d) k v = (if k' = k then (k, v) # d else (k', v') # dict_set d k v)"

subsection \<open>Truthiness\<close>

text \<open>Python's truth value of a decoded value: \<open>None\<close>, \<open>False\<close>, zero and empty containers are false.\<close>

fun truthy :: "json \<Rightarrow> bool" where
  "truthy JNull = False"
| "truthy (JBool b) = b"
| "truthy (JInt n) = (n \<noteq> 0)"
| "truthy (JFloat (Fin r)) = (r \<noteq> 0)"
| "truthy (JFloat _) = True"
| "truthy (JStr s) = (s \<noteq> [])"
| "truthy (JArr xs) = (xs \<noteq> [])"
| "truthy (JObj kvs) = (kvs \<noteq> [])"

section \<open>String operations of the runtime\<close>

text \<open>\<open>s.startswith(p)\<close> and the substring test \<open>w in s\<close>.\<close>

fun starts_with :: "pystr \<Rightarrow> pystr \<Rightarrow> bool" where
  "starts_with [] s = True"
| "starts_with (p # ps) [] = False"
| "starts_with (p # ps) (c # cs) = (p = c \<and> starts_with ps cs)"

fun py_in :: "pystr \<Rightarrow> pystr \<Rightarrow> bool" where
  "py_in w [] = (w = [])"
| "py_in w (c # cs) = (starts_with w (c # cs) \<or> py_in w cs)"

text \<open>
  \<open>str.isspace\<close> per code point, as \<open>str.strip()\<close> without arguments uses it.
\<close>

definition py_isspace :: "nat \<Rightarrow> bool" where
  "py_isspace c = ((9 \<le> c \<and> c \<le> 13) \<or> (28 \<le> c \<and> c \<le> 32) \<or> c = 133 \<or> c = 160
      \<or> c = 5760 \<or> (8192 \<le> c \<and> c \<le> 8202) \<or> c = 8232 \<or> c = 8233 \<or> c = 8239
      \<or> c = 8287 \<or> c = 12288)"

definition py_strip :: "pystr \<Rightarrow> pystr" where
  "py_strip s = rev (dropWhile py_isspace (rev (dropWhile py_isspace s)))"

text \<open>
  \<open>str.lower()\<close>. Within U+0000..U+00FF the mapping is the runtime's. Above U+00FF the
  five code points whose lower-case form falls below U+0100 are mapped as the runtime maps
  them; every other code point above U+00FF is kept, where the runtime may replace it by
  code points that are again above U+00FF. The keyword tests below only look for code
  points below U+0100.
\<close>

definition lower_cp :: "nat \<Rightarrow> pystr" where
  "lower_cp c =
     (if 65 \<le> c \<and> c \<le> 90 then [c + 32]
      else if 192 \<le> c \<and> c \<le> 222 \<and> c \<noteq> 215 then [c + 32]
      else if c = 304 then [105, 775]
      else if c = 376 then [255]
      else if c = 7838 then [223]
      else if c = 8490 then [107]
      else if c = 8491 then [229]
      else [c])"

definition py_lower :: "pystr \<Rightarrow> pystr" where
  "py_lower s = concat (map lower_cp s)"

text \<open>
  \<open>s.split(sep)\<close> and \<open>s.replace(old, new)\<close> for a non-empty \<open>sep\<close> / \<open>old\<close>: occurrences are
  taken from the left and do not overlap. The source only passes the constants
  \<open>"```"\<close>, \<open>"/"\<close> and \<open>"json"\<close>.
\<close>

function py_split_from :: "pystr \<Rightarrow> pystr \<Rightarrow> pystr \<Rightarrow> pystr list" where
  "py_split_from sep cur s =
     (if s = [] then [cur]
      else if sep \<noteq> [] \<and> starts_with sep s then cur # py_split_from sep [] (drop (length sep) s)
      else py_split_from sep (cur @ [hd s]) (tl s))"
  by pat_completeness auto
termination
  by (relation "measure (\<lambda>(sep, cur, s). length s)") auto

definition py_split :: "pystr \<Rightarrow> pystr \<Rightarrow> pystr list" where
  "py_split s sep = py_split_from sep [] s"

function py_replace :: "pystr \<Rightarrow> pystr \<Rightarrow> pystr \<Rightarrow> pystr" where
  "py_replace s old new =
     (if s = [] then []
      else if old \<noteq> [] \<and> starts_with old s then new @ py_replace (drop (length old) s) old new
      else hd s # py_replace (tl s) old new)"
  by pat_completeness auto
termination
  by (relation "measure (\<lambda>(s, old, new). length s)") auto

section \<open>The owner/repo pattern\<close>

text \<open>
  \<open>repo_pattern = r'([a-zA-Z0-9_.-]+)/([a-zA-Z0-9_.-]+)'\<close> and \<open>re.search\<close> with it.
  \<open>is_token\<close> is the character class. \<open>match_here\<close> is a match attempt anchored at the
  head of the text: both groups are greedy, and since \<open>/\<close> is not in the class the first
  group can only end where the run of class characters ends. \<open>re_search\<close> tries the
  start positions from the left.
\<close>

definition is_token :: "nat \<Rightarrow> bool" where
  "is_token c = ((97 \<le> c \<and> c \<le> 122) \<or> (65 \<le> c \<and> c \<le> 90) \<or> (48 \<le> c \<and> c \<le> 57)
      \<or> c = 95 \<or> c = 46 \<or> c = 45)"

definition match_here :: "pystr \<Rightarrow> (pystr \<times> pystr) option" where
  "match_here s =
     (let g1 = takeWhile is_token s; r = dropWhile is_token s in
      if g1 = [] then None
      else (case r of
              [] \<Rightarrow> None
            | c # r' \<Rightarrow>
                if c = 47 \<and> takeWhile is_token r' \<noteq> [] then Some (g1, takeWhile is_token r')
                else None))"

fun re_search :: "pystr \<Rightarrow> (pystr \<times> pystr) option" where
  "re_search [] = None"
| "re_search (c # cs) =
     (case match_here (c # cs) of Some m \<Rightarrow> Some m | None \<Rightarrow> re_search cs)"

section \<open>External collaborators\<close>

text \<open>
  The remote operations of \<open>GitHubClient\<close> that \<open>execute\<close> can invoke, with the arguments
  it passes. \<open>GetUserNamed v\<close> is \<open>_request("GET", f"/users/{v}")\<close>.
\<close>

datatype gh_call =
    ListRepos json json
  | GetRepo pystr pystr
  | ListIssues pystr pystr json
  | CreateIssue pystr pystr json json
  | ListPrs pystr pystr json
  | ListBranches pystr pystr
  | ListCommits pystr pystr
  | GetUser
  | GetUserNamed json
  | SearchRepos json

text \<open>
  What the pipeline does not compute itself: the two calls of the model client
  (\<open>OllamaClient.chat\<close> on the user's text with the fixed system prompt, and
  \<open>OllamaClient.generate\<close> on a prompt), the remote client, and the library functions
  \<open>json.loads\<close> (\<open>None\<close> when it raises), \<open>json.dumps(_, ensure_ascii=False)\<close> and \<open>str()\<close> of
  a value that is not a string. Both model calls and every remote operation catch their
  own exceptions and return a value.
\<close>

record collaborators =
  chat :: "pystr \<Rightarrow> json"
  generate :: "pystr \<Rightarrow> json"
  github :: "gh_call \<Rightarrow> json"
  json_loads :: "pystr \<Rightarrow> json option"
  json_dumps :: "json \<Rightarrow> pystr"
  py_repr :: "json \<Rightarrow> pystr"

text \<open>What a run leaves behind: dispatcher invocations, remote operations, completion calls.\<close>

datatype event = Dispatch pydict | Remote gh_call | Generate pystr

section \<open>GitHubAgent\<close>

subsection \<open>\<open>_fallback_parse\<close>\<close>

definition contains_any :: "pystr \<Rightarrow> pystr list \<Rightarrow> bool" where
  "contains_any user_lower ws = list_ex (\<lambda>w. py_in w user_lower) ws"

definition issue_terms :: "pystr list" where
  "issue_terms = [U ''issue'', U ''issues'', U ''problemas'']"

definition branch_terms :: "pystr list" where
  "branch_terms = [U ''branch'', U ''branches'', U ''ramos'']"

definition commit_terms :: "pystr list" where
  "commit_terms = [U ''commit'', U ''commits'']"

definition pr_terms :: "pystr list" where
  "pr_terms = [U ''pr'', U ''prs'', U ''pull request'', U ''pull requests'']"

definition repo_terms :: "pystr list" where
  "repo_terms = [U ''repo'', U ''reposit'' @ [243] @ U ''rio'', U ''repositorio'']"

definition search_terms :: "pystr list" where
  "search_terms = [U ''busca'', U ''buscar'', U ''pesquisa'', U ''search'']"

definition my_repos_terms :: "pystr list" where
  "my_repos_terms = [U ''meus repo'', U ''meus reposit'', U ''list repo'']"

definition fallback_action :: "pystr \<Rightarrow> pystr \<Rightarrow> pystr" where
  "fallback_action user_lower owner =
     (if contains_any user_lower issue_terms then U ''list_issues''
      else if contains_any user_lower branch_terms then U ''list_branches''
      else if contains_any user_lower commit_terms then U ''list_commits''
      else if contains_any user_lower pr_terms then U ''list_prs''
      else if contains_any user_lower repo_terms \<and> owner \<noteq> [] then U ''get_repo''
      else if contains_any user_lower search_terms then U ''search_repos''
      else if contains_any user_lower my_repos_terms then U ''list_repos''
      else U ''unknown'')"

definition fallback_parse :: "pystr \<Rightarrow> pydict" where
  "fallback_parse user_input =
     (let user_lower = py_lower user_input;
          m = re_search user_input;
          owner = (case m of Some (g1, g2) \<Rightarrow> g1 | None \<Rightarrow> []);
          repo = (case m of Some (g1, g2) \<Rightarrow> g2 | None \<Rightarrow> []);
          action = fallback_action user_lower owner
      in [(U ''action'', JStr action),
          (U ''params'', JObj [(U ''owner'', JStr owner), (U ''repo'', JStr repo)]),
          (U ''confidence'',
             JFloat (Fin (if owner \<noteq> [] \<and> repo \<noteq> [] then float_0_7 else float_0_3)))])"

subsection \<open>\<open>_enrich_intent\<close>\<close>

text \<open>\<open>"/" in v\<close> for a decoded value \<open>v\<close>: a substring test on a string, membership in a
  list, a key test on a dict, and a \<open>TypeError\<close> on anything else.\<close>

fun has_slash :: "json \<Rightarrow> pyerr + bool" where
  "has_slash (JStr s) = Inr (py_in [47] s)"
| "has_slash (JArr xs) = Inr (JStr [47] \<in> set xs)"
| "has_slash (JObj d) = Inr (dict_has d [47])"
| "has_slash _ = Inl TypeError"

text \<open>
  The test \<open>p.get("owner") and p.get("repo") and "/" not in p.get("owner", "")\<close>, with
  Python's short-circuit evaluation.
\<close>

definition has_valid_owner_repo :: "pydict \<Rightarrow> pyerr + bool" where
  "has_valid_owner_repo p =
     (if truthy (dict_get p (U ''owner'')) \<and> truthy (dict_get p (U ''repo''))
      then (case has_slash (dict_get_default p (U ''owner'') (JStr [])) of
              Inl e \<Rightarrow> Inl e
            | Inr b \<Rightarrow> Inr (\<not> b))
      else Inr False)"

text \<open>
  \<open>_enrich_intent\<close> on whatever \<open>json.loads\<close> returned. \<open>.get\<close> on a value that is not a
  dict raises \<open>AttributeError\<close>; the two assignments go through \<open>intent["params"]\<close>, which
  raises \<open>KeyError\<close> when the key is absent (then \<open>p\<close> was only the default \<open>{}\<close>).
\<close>

definition enrich_intent :: "pystr \<Rightarrow> json \<Rightarrow> pyerr + pydict" where
  "enrich_intent user_input intent =
     (case intent of
        JObj d \<Rightarrow>
          (case dict_get_default d (U ''params'') (JObj []) of
             JObj p \<Rightarrow>
               (case has_valid_owner_repo p of
                  Inl e \<Rightarrow> Inl e
                | Inr True \<Rightarrow> Inr d
                | Inr False \<Rightarrow>
                    (case re_search user_input of
                       None \<Rightarrow> Inr d
                     | Some (g1, g2) \<Rightarrow>
                         (case dict_item d (U ''params'') of
                            Inl e \<Rightarrow> Inl e
                          | Inr _ \<Rightarrow>
                              Inr (dict_set d (U ''params'')
                                     (JObj (dict_set (dict_set p (U ''owner'') (JStr g1))
                                              (U ''repo'') (JStr g2)))))))
           | _ \<Rightarrow> Inl AttributeError)
      | _ \<Rightarrow> Inl AttributeError)"

subsection \<open>\<open>parse_intent\<close>\<close>

text \<open>
  The loop over \<open>enumerate(json_str)\<close>: \<open>depth\<close> and \<open>start\<close> are the loop's variables,
  \<open>i\<close> the index of the head of the remaining text. The result is \<open>Some (start, i)\<close> at the
  \<open>break\<close> and \<open>None\<close> when the loop runs to the end.
\<close>

fun brace_scan :: "int \<Rightarrow> int \<Rightarrow> nat \<Rightarrow> pystr \<Rightarrow> (nat \<times> nat) option" where
  "brace_scan depth start i [] = None"
| "brace_scan depth start i (c # cs) =
     (if c = 123 then brace_scan (depth + 1) (if depth = 0 then int i else start) (i + 1) cs
      else if c = 125 then
        (if depth - 1 = 0 \<and> start \<ge> 0 then Some (nat start, i)
         else brace_scan (depth - 1) start (i + 1) cs)
      else brace_scan depth start (i + 1) cs)"

definition fence :: pystr where
  "fence = U ''```''"

text \<open>\<open>json_str.split("```")[1]\<close>, with the \<open>IndexError\<close> of a list that is too short.\<close>

definition second :: "'a list \<Rightarrow> pyerr + 'a" where
  "second xs = (case xs of _ # x # _ \<Rightarrow> Inr x | _ \<Rightarrow> Inl IndexError)"

text \<open>The text that \<open>parse_intent\<close> hands to \<open>json.loads\<close>, from the model's response.\<close>

definition json_candidate :: "pystr \<Rightarrow> pyerr + pystr" where
  "json_candidate response =
     (let json_str = py_strip response in
      case (if py_in fence json_str
            then (case second (py_split json_str fence) of
                    Inl e \<Rightarrow> Inl e
                  | Inr x \<Rightarrow> Inr (py_strip (py_replace x (U ''json'') [])))
            else Inr json_str) of
        Inl e \<Rightarrow> Inl e
      | Inr json_str \<Rightarrow>
          (case brace_scan 0 (- 1) 0 json_str of
             Some (start, i) \<Rightarrow> Inr (take (i + 1 - start) (drop start json_str))
           | None \<Rightarrow> Inr json_str))"

text \<open>The body of the \<open>try\<close>; \<open>.strip()\<close> on a response that is not a string raises.\<close>

definition parse_intent_try :: "collaborators \<Rightarrow> json \<Rightarrow> pystr \<Rightarrow> pyerr + pydict" where
  "parse_intent_try w response user_input =
     (case response of
        JStr r \<Rightarrow>
          (case json_candidate r of
             Inl e \<Rightarrow> Inl e
           | Inr json_str \<Rightarrow>
               (case json_loads w json_str of
                  None \<Rightarrow> Inl JSONDecodeError
                | Some intent \<Rightarrow> enrich_intent user_input intent))
      | _ \<Rightarrow> Inl AttributeError)"

text \<open>The bare \<open>except:\<close> turns every exception of the body into the fallback.\<close>

definition parse_intent :: "collaborators \<Rightarrow> pystr \<Rightarrow> pydict" where
  "parse_intent w user_input =
     (case parse_intent_try w (chat w user_input) user_input of
        Inr intent \<Rightarrow> intent
      | Inl _ \<Rightarrow> fallback_parse user_input)"

subsection \<open>\<open>execute\<close>\<close>

text \<open>\<open>v.strip()\<close> on a decoded value: only a string has the method.\<close>

definition strip_value :: "json \<Rightarrow> pyerr + pystr" where
  "strip_value v = (case v of JStr s \<Rightarrow> Inr (py_strip s) | _ \<Rightarrow> Inl AttributeError)"

text \<open>
  One round of the loop \<open>for key in ["owner", "repo", "repository"]\<close> of \<open>get_owner_repo\<close>:
  \<open>Inr (Some pair)\<close> is the \<open>return\<close> inside the loop, \<open>Inr None\<close> goes on to the next key.
\<close>

definition scan_key :: "pydict \<Rightarrow> pystr \<Rightarrow> pyerr + (pystr \<times> pystr) option" where
  "scan_key p key =
     (let val = dict_get_default p key (JStr []) in
      if truthy val then
        (case has_slash val of
           Inl e \<Rightarrow> Inl e
         | Inr False \<Rightarrow> Inr None
         | Inr True \<Rightarrow>
             (case val of
                JStr s \<Rightarrow>
                  (case py_split s [47] of
                     a # b # _ \<Rightarrow> Inr (Some (py_strip a, py_strip b))
                   | _ \<Rightarrow> Inr None)
              | _ \<Rightarrow> Inl AttributeError))
      else Inr None)"

fun scan_keys :: "pydict \<Rightarrow> pystr list \<Rightarrow> pyerr + (pystr \<times> pystr) option" where
  "scan_keys p [] = Inr None"
| "scan_keys p (key # keys) =
     (case scan_key p key of
        Inl e \<Rightarrow> Inl e
      | Inr (Some pair) \<Rightarrow> Inr (Some pair)
      | Inr None \<Rightarrow> scan_keys p keys)"

text \<open>\<open>x.strip() if x else ""\<close>.\<close>

definition strip_or_empty :: "json \<Rightarrow> pyerr + pystr" where
  "strip_or_empty x = (if truthy x then strip_value x else Inr [])"

text \<open>\<open>get_owner_repo\<close>, on the value \<open>p = intent.get("params", {})\<close>.\<close>

definition get_owner_repo :: "json \<Rightarrow> pyerr + (pystr \<times> pystr)" where
  "get_owner_repo pv =
     (case pv of
        JObj p \<Rightarrow>
          (let owner = dict_get_default p (U ''owner'') (JStr []);
               repo = dict_get_default p (U ''repo'') (JStr [])
           in case scan_keys p [U ''owner'', U ''repo'', U ''repository''] of
                Inl e \<Rightarrow> Inl e
              | Inr (Some pair) \<Rightarrow> Inr pair
              | Inr None \<Rightarrow>
                  (case strip_or_empty owner of
                     Inl e \<Rightarrow> Inl e
                   | Inr ow \<Rightarrow>
                       (case strip_or_empty repo of
                          Inl e \<Rightarrow> Inl e
                        | Inr re \<Rightarrow> Inr (ow, re))))
      | _ \<Rightarrow> Inl AttributeError)"

text \<open>An Error Record \<open>{"error": message}\<close>.\<close>

definition error_record :: "pystr \<Rightarrow> json" where
  "error_record msg = JObj [(U ''error'', JStr msg)]"

definition is_error_record :: "json \<Rightarrow> bool" where
  "is_error_record data = (case data of JObj d \<Rightarrow> dict_has d (U ''error'') | _ \<Rightarrow> False)"

text \<open>A remote operation: its result and the trace of the call.\<close>

definition remote :: "collaborators \<Rightarrow> gh_call \<Rightarrow> (pystr + json) \<times> gh_call list" where
  "remote w c = (Inr (github w c), [c])"

definition refuse :: "pystr \<Rightarrow> (pystr + json) \<times> gh_call list" where
  "refuse msg = (Inr (error_record msg), [])"

definition action_names :: "pystr list" where
  "action_names = [U ''list_repos'', U ''get_repo'', U ''list_issues'', U ''create_issue'',
     U ''list_prs'', U ''list_branches'', U ''list_commits'', U ''get_user'', U ''search_repos'']"

text \<open>
  \<open>actions[action]()\<close>: the entry of the table \<open>actions\<close> under a name, run. \<open>Inl k\<close> is a
  \<open>KeyError\<close> with key \<open>k\<close>, raised by \<open>p["title"]\<close> or by the table itself; no entry
  raises anything else, since the operations of the remote client return their failures
  as values.
\<close>

definition run_action :: "collaborators \<Rightarrow> pydict \<Rightarrow> pystr \<Rightarrow> pystr \<Rightarrow> pystr
    \<Rightarrow> (pystr + json) \<times> gh_call list" where
  "run_action w p owner repo action =
     (if action = U ''list_repos'' then
        remote w (ListRepos (dict_get p (U ''username'')) (dict_get p (U ''org'')))
      else if action = U ''get_repo'' then
        (if owner \<noteq> [] \<and> repo \<noteq> [] then remote w (GetRepo owner repo)
         else refuse (U ''Informe owner/repo. Ex: microsoft/vscode''))
      else if action = U ''list_issues'' then
        (if owner \<noteq> [] \<and> repo \<noteq> []
         then remote w (ListIssues owner repo (dict_get_default p (U ''state'') (JStr (U ''open''))))
         else refuse (U ''Informe owner/repo. Ex: microsoft/vscode''))
      else if action = U ''create_issue'' then
        (if owner \<noteq> [] \<and> repo \<noteq> [] then
           (case dict_item p (U ''title'') of
              Inl _ \<Rightarrow> (Inl (U ''title''), [])
            | Inr title \<Rightarrow>
                remote w (CreateIssue owner repo title (dict_get_default p (U ''body'') (JStr []))))
         else refuse (U ''Informe owner/repo''))
      else if action = U ''list_prs'' then
        (if owner \<noteq> [] \<and> repo \<noteq> []
         then remote w (ListPrs owner repo (dict_get_default p (U ''state'') (JStr (U ''open''))))
         else refuse (U ''Informe owner/repo''))
      else if action = U ''list_branches'' then
        (if owner \<noteq> [] \<and> repo \<noteq> [] then remote w (ListBranches owner repo)
         else refuse (U ''Informe owner/repo''))
      else if action = U ''list_commits'' then
        (if owner \<noteq> [] \<and> repo \<noteq> [] then remote w (ListCommits owner repo)
         else refuse (U ''Informe owner/repo''))
      else if action = U ''get_user'' then
        (if \<not> truthy (dict_get p (U ''username'')) then remote w GetUser
         else remote w (GetUserNamed (dict_get p (U ''username''))))
      else if action = U ''search_repos'' then
        (if truthy (dict_get p (U ''query''))
         then remote w (SearchRepos (dict_get_default p (U ''query'') (JStr [])))
         else refuse (U ''Informe o termo de busca''))
      else (Inl action, []))"

definition missing_parameter :: "pystr \<Rightarrow> pystr" where
  "missing_parameter k =
     U ''Par'' @ [226] @ U ''metro faltando: '' @ [39] @ k @ [39]
       @ U ''. Tente ser mais espec'' @ [237] @ U ''fico, ex: '' @ [39]
       @ U ''issues do microsoft/vscode'' @ [39]"

definition unrecognised :: pystr where
  "unrecognised = U ''A'' @ [231, 227] @ U ''o n'' @ [227] @ U ''o reconhecida''"

text \<open>
  \<open>execute\<close>: the result and the remote operations invoked. \<open>get_owner_repo()\<close> is called
  outside the \<open>try\<close>, and \<open>action in actions\<close> hashes the action, so a list or a dict there
  raises \<open>TypeError\<close>; both leave \<open>execute\<close> as exceptions.
\<close>

definition execute :: "collaborators \<Rightarrow> pydict \<Rightarrow> pyerr + (json \<times> gh_call list)" where
  "execute w intent =
     (let action = dict_get_default intent (U ''action'') (JStr (U ''unknown''));
          pv = dict_get_default intent (U ''params'') (JObj [])
      in case get_owner_repo pv of
           Inl e \<Rightarrow> Inl e
         | Inr (owner, repo) \<Rightarrow>
             (case action of
                JArr _ \<Rightarrow> Inl TypeError
              | JObj _ \<Rightarrow> Inl TypeError
              | JStr a \<Rightarrow>
                  (if a \<in> set action_names then
                     (case pv of
                        JObj p \<Rightarrow>
                          (case run_action w p owner repo a of
                             (Inl k, calls) \<Rightarrow> Inr (error_record (missing_parameter k), calls)
                           | (Inr r, calls) \<Rightarrow> Inr (r, calls))
                      | _ \<Rightarrow> Inl AttributeError)
                   else Inr (error_record unrecognised, []))
              | _ \<Rightarrow> Inr (error_record unrecognised, [])))"

subsection \<open>\<open>format_response\<close>\<close>

text \<open>\<open>str(v)\<close> as an f-string computes it.\<close>

definition py_str :: "collaborators \<Rightarrow> json \<Rightarrow> pystr" where
  "py_str w v = (case v of JStr s \<Rightarrow> s | _ \<Rightarrow> py_repr w v)"

definition error_prefix :: pystr where
  "error_prefix = [10060] @ U '' **Erro:** ''"

definition format_prompt :: "pystr \<Rightarrow> pystr \<Rightarrow> pystr" where
  "format_prompt action_str data_str =
     U ''Formate estes dados do GitHub de forma clara em portugu'' @ [234]
       @ U ''s brasileiro, use markdown com emojis:'' @ [10, 10]
       @ U ''A'' @ [231, 227] @ U ''o: '' @ action_str @ [10] @ U ''Dados: '' @ data_str"

text \<open>The part of \<open>format_response\<close> after the error test: the text returned and the
  prompts sent to \<open>generate\<close>.\<close>

definition render :: "collaborators \<Rightarrow> json \<Rightarrow> json \<Rightarrow> json \<times> pystr list" where
  "render w action data =
     (let data_str = take 3000 (json_dumps w data);
          prompt = format_prompt (py_str w action) data_str
      in (generate w prompt, [prompt]))"

definition format_response :: "collaborators \<Rightarrow> json \<Rightarrow> json \<Rightarrow> json \<times> pystr list" where
  "format_response w action data =
     (case data of
        JObj d \<Rightarrow>
          (if dict_has d (U ''error'')
           then (JStr (error_prefix @ py_str w (dict_get d (U ''error''))), [])
           else render w action data)
      | _ \<Rightarrow> render w action data)"

subsection \<open>\<open>process\<close>\<close>

text \<open>\<open>v < 0.3\<close>: numbers (and booleans, which are integers) compare by value, a
  \<open>NaN\<close> is below nothing, and any other value raises \<open>TypeError\<close>.\<close>

fun below_threshold :: "json \<Rightarrow> pyerr + bool" where
  "below_threshold (JInt n) = Inr (of_int n < float_0_3)"
| "below_threshold (JBool b) = Inr ((if b then 1 else 0) < float_0_3)"
| "below_threshold (JFloat (Fin r)) = Inr (r < float_0_3)"
| "below_threshold (JFloat NegInf) = Inr True"
| "below_threshold (JFloat _) = Inr False"
| "below_threshold _ = Inl TypeError"

text \<open>The condition of the \<open>if\<close> in \<open>process\<close>; \<open>or\<close> does not evaluate its second
  operand when the first is true.\<close>

definition gate_rejects :: "pydict \<Rightarrow> pyerr + bool" where
  "gate_rejects intent =
     (if dict_get intent (U ''action'') = JStr (U ''unknown'') then Inr True
      else below_threshold (dict_get_default intent (U ''confidence'') (JInt 0)))"

record envelope =
  success :: bool
  message :: "pystr option"
  intent :: "pydict option"
  result :: "json option"
  formatted :: "json option"

definition guidance :: pystr where
  "guidance = U ''N'' @ [227] @ U ''o entendi o pedido. Tente: '' @ [39]
     @ U ''Liste meus reposit'' @ [243] @ U ''rios'' @ [39] @ U '' ou '' @ [39]
     @ U ''Mostre issues do microsoft/vscode'' @ [39]"

definition process :: "collaborators \<Rightarrow> pystr \<Rightarrow> pyerr + (envelope \<times> event list)" where
  "process w user_input =
     (let it = parse_intent w user_input in
      case gate_rejects it of
        Inl e \<Rightarrow> Inl e
      | Inr True \<Rightarrow>
          Inr (\<lparr>success = False, message = Some guidance, intent = None, result = None,
                 formatted = None\<rparr>, [])
      | Inr False \<Rightarrow>
          (case execute w it of
             Inl e \<Rightarrow> Inl e
           | Inr (res, calls) \<Rightarrow>
               (case dict_item it (U ''action'') of
                  Inl e \<Rightarrow> Inl e
                | Inr action \<Rightarrow>
                    (case format_response w action res of
                       (text, prompts) \<Rightarrow>
                         Inr (\<lparr>success = True, message = None, intent = Some it,
                                result = Some res, formatted = Some text\<rparr>,
                              Dispatch it # map Remote calls @ map Generate prompts)))))"

section \<open>Specification-level notions\<close>

text \<open>
  A pair of groups that the pattern can match: two non-empty runs of class characters.
  The pattern occurs at index \<open>k\<close> of a text when the text, from \<open>k\<close> on, starts with
  such a pair around a \<open>/\<close>.
\<close>

definition token_pair :: "pystr \<Rightarrow> pystr \<Rightarrow> bool" where
  "token_pair a b = (a \<noteq> [] \<and> b \<noteq> [] \<and> (\<forall>c\<in>set a. is_token c) \<and> (\<forall>c\<in>set b. is_token c))"

definition pattern_occurs :: "pystr \<Rightarrow> nat \<Rightarrow> bool" where
  "pattern_occurs s k = (\<exists>a b post. drop k s = a @ 47 # b @ post \<and> token_pair a b)"

text \<open>A text mentions a list of keywords when its lower-case form contains one of them.\<close>

definition mentions :: "pystr \<Rightarrow> pystr list \<Rightarrow> bool" where
  "mentions text ws = (\<exists>w\<in>set ws. sublist w (py_lower text))"

text \<open>
  The first match of the pattern in a text: the groups \<open>a\<close> and \<open>b\<close> stand around a \<open>/\<close> at
  some index, the second group cannot be extended, and the pattern occurs at no
  earlier index.
\<close>

definition first_match :: "pystr \<Rightarrow> pystr \<Rightarrow> pystr \<Rightarrow> bool" where
  "first_match text a b =
     (\<exists>k post. drop k text = a @ 47 # b @ post \<and> k \<le> length text \<and> token_pair a b
        \<and> (post = [] \<or> \<not> is_token (hd post)) \<and> (\<forall>j<k. \<not> pattern_occurs text j))"

text \<open>
  \<open>a\<close> and \<open>b\<close> are the first two segments of \<open>v\<close> when \<open>v\<close> is cut at every \<open>/\<close>.
\<close>

definition splits_as :: "pystr \<Rightarrow> pystr \<Rightarrow> pystr \<Rightarrow> bool" where
  "splits_as v a b =
     (\<exists>rest. v = a @ 47 # b @ rest \<and> 47 \<notin> set a \<and> 47 \<notin> set b \<and> (rest = [] \<or> hd rest = 47))"

text \<open>
  A parameter whose value holds no \<open>/\<close>: the key is absent, or its value is false in
  Python's sense, or the test \<open>"/" in value\<close> is false.
\<close>

definition slashless :: "pydict \<Rightarrow> pystr \<Rightarrow> bool" where
  "slashless p k =
     (case map_of p k of None \<Rightarrow> True | Some v \<Rightarrow> \<not> truthy v \<or> has_slash v = Inr False)"

text \<open>
  The parameters need repair: \<open>owner\<close> or \<open>repo\<close> is absent or empty, or \<open>owner\<close> still
  holds a \<open>/\<close>.
\<close>

definition needs_repair :: "pydict \<Rightarrow> bool" where
  "needs_repair p =
     (\<not> truthy (dict_get p (U ''owner'')) \<or> \<not> truthy (dict_get p (U ''repo''))
      \<or> has_slash (dict_get p (U ''owner'')) = Inr True)"

text \<open>
  Collaborators for concrete runs. The decoder stands for \<open>json.loads\<close> on the texts that
  a run hands to it: a text of the table decodes to the value beside it, and the runs
  below hand it no other text that \<open>json.loads\<close> accepts. The model answers every request
  with one fixed response, and every remote operation returns one fixed payload;
  \<open>json.dumps\<close> and \<open>str\<close> are only asked for values they are given here.
\<close>

definition sample_world :: "json \<Rightarrow> (pystr \<times> json) list \<Rightarrow> json \<Rightarrow> collaborators" where
  "sample_world response table payload =
     \<lparr>chat = (\<lambda>_. response), generate = (\<lambda>prompt. JStr (U ''ok'')),
      github = (\<lambda>_. payload), json_loads = map_of table,
      json_dumps = (\<lambda>_. U ''{}''), py_repr = (\<lambda>_. U ''None'')\<rparr>"

text \<open>
  The actions that need an owner and a repo, and the parameter mappings of an Intent as
  the data model has them: every value is a string.
\<close>

definition owner_repo_actions :: "pystr list" where
  "owner_repo_actions = [U ''get_repo'', U ''list_issues'', U ''list_prs'', U ''list_branches'',
     U ''list_commits'', U ''create_issue'']"

definition is_str :: "json \<Rightarrow> bool" where
  "is_str v = (case v of JStr _ \<Rightarrow> True | _ \<Rightarrow> False)"

definition string_valued :: "pydict \<Rightarrow> bool" where
  "string_valued p = list_all (\<lambda>(k, v). is_str v) p"

text \<open>
  A balanced span: a text that starts with \<open>{\<close> and ends at the \<open>}\<close> that closes this
  brace, counting braces only. \<open>closes_at_end d s\<close> reads \<open>s\<close> from depth \<open>d\<close>: the depth
  stays positive before the last character and is zero after it.
\<close>

definition brace_step :: "nat \<Rightarrow> int" where
  "brace_step c = (if c = 123 then 1 else if c = 125 then - 1 else 0)"

fun closes_at_end :: "int \<Rightarrow> pystr \<Rightarrow> bool" where
  "closes_at_end d [] = False"
| "closes_at_end d (c # cs) =
     (if cs = [] then d + brace_step c = 0
      else 0 < d + brace_step c \<and> closes_at_end (d + brace_step c) cs)"




section \<open>Facts about the string operations and the pattern\<close>

lemma starts_with_prefix: "starts_with p s = prefix p s"
  by (induction p s rule: starts_with.induct) auto

lemma py_in_sublist: "py_in w s = sublist w s"
  by (induction s) (auto simp: starts_with_prefix sublist_Cons_right)

lemma py_lower_append: "py_lower (a @ b) = py_lower a @ py_lower b"
  by (simp add: py_lower_def)

lemma sublist_py_lower: "sublist u t \<Longrightarrow> sublist (py_lower u) (py_lower t)"
  unfolding sublist_def by (metis py_lower_append)

lemma is_token_slash: "\<not> is_token 47"
  by (simp add: is_token_def)

lemma takeWhile_run:
  "\<forall>c\<in>set a. P c \<Longrightarrow> (r = [] \<or> \<not> P (hd r)) \<Longrightarrow> takeWhile P (a @ r) = a \<and> dropWhile P (a @ r) = r"
  by (induction a) (cases r; auto)+

lemma match_here_Some:
  "match_here s = Some (a, b) \<longleftrightarrow>
     (\<exists>post. s = a @ 47 # b @ post \<and> a \<noteq> [] \<and> b \<noteq> []
        \<and> (\<forall>c\<in>set a. is_token c) \<and> (\<forall>c\<in>set b. is_token c)
        \<and> (post = [] \<or> \<not> is_token (hd post)))"
proof
  assume m: "match_here s = Some (a, b)"
  define r where "r = dropWhile is_token s"
  from m have a: "a = takeWhile is_token s" and ane: "a \<noteq> []"
    by (auto simp: match_here_def Let_def split: if_splits list.splits)
  from m obtain r' where r: "r = 47 # r'" and b: "b = takeWhile is_token r'" and bne: "b \<noteq> []"
    by (auto simp: match_here_def Let_def r_def split: if_splits list.splits)
  have s: "s = a @ 47 # b @ dropWhile is_token r'"
    using a r b r_def by (metis takeWhile_dropWhile_id)
  have "dropWhile is_token r' = [] \<or> \<not> is_token (hd (dropWhile is_token r'))"
    by (metis hd_dropWhile)
  moreover have "\<forall>c\<in>set a. is_token c" "\<forall>c\<in>set b. is_token c"
    using a b by (auto dest: set_takeWhileD)
  ultimately show "\<exists>post. s = a @ 47 # b @ post \<and> a \<noteq> [] \<and> b \<noteq> []
        \<and> (\<forall>c\<in>set a. is_token c) \<and> (\<forall>c\<in>set b. is_token c)
        \<and> (post = [] \<or> \<not> is_token (hd post))"
    using s ane bne by blast
next
  assume "\<exists>post. s = a @ 47 # b @ post \<and> a \<noteq> [] \<and> b \<noteq> []
        \<and> (\<forall>c\<in>set a. is_token c) \<and> (\<forall>c\<in>set b. is_token c)
        \<and> (post = [] \<or> \<not> is_token (hd post))"
  then obtain post where s: "s = a @ 47 # b @ post" and ne: "a \<noteq> []" "b \<noteq> []"
    and ta: "\<forall>c\<in>set a. is_token c" and tb: "\<forall>c\<in>set b. is_token c"
    and p: "post = [] \<or> \<not> is_token (hd post)" by blast
  have 1: "takeWhile is_token s = a \<and> dropWhile is_token s = 47 # b @ post"
    unfolding s using takeWhile_run [OF ta, of "47 # b @ post"] is_token_slash by simp
  have 2: "takeWhile is_token (b @ post) = b"
    using takeWhile_run [OF tb p] by simp
  show "match_here s = Some (a, b)"
    using 1 2 ne by (simp add: match_here_def Let_def)
qed

lemma match_here_complete:
  assumes "a \<noteq> []" "b \<noteq> []" "\<forall>c\<in>set a. is_token c" "\<forall>c\<in>set b. is_token c"
  shows "match_here (a @ 47 # b @ post) \<noteq> None"
proof -
  have ta: "takeWhile is_token (a @ 47 # b @ post) = a \<and> dropWhile is_token (a @ 47 # b @ post) = 47 # b @ post"
    using takeWhile_run [OF assms(3), of "47 # b @ post"] is_token_slash by simp
  obtain x bs where b: "b = x # bs" using assms(2) by (cases b) auto
  have "takeWhile is_token (b @ post) \<noteq> []" using assms(4) b by simp
  then show ?thesis using ta assms(1) by (simp add: match_here_def Let_def)
qed

lemma re_search_Some:
  "re_search s = Some (a, b) \<Longrightarrow>
     \<exists>pre post. s = pre @ a @ 47 # b @ post \<and> match_here (a @ 47 # b @ post) = Some (a, b)
       \<and> (\<forall>k < length pre. match_here (drop k s) = None)"
proof (induction s)
  case Nil then show ?case by simp
next
  case (Cons c cs)
  show ?case
  proof (cases "match_here (c # cs)")
    case (Some m)
    with Cons.prems have m: "match_here (c # cs) = Some (a, b)" by simp
    then obtain post where "c # cs = a @ 47 # b @ post" unfolding match_here_Some by blast
    with m show ?thesis by (intro exI [of _ "[]"] exI [of _ post]) simp
  next
    case None
    with Cons.prems have "re_search cs = Some (a, b)" by simp
    from Cons.IH [OF this] obtain pre post where
      cs: "cs = pre @ a @ 47 # b @ post" and mh: "match_here (a @ 47 # b @ post) = Some (a, b)"
      and first: "\<forall>k < length pre. match_here (drop k cs) = None" by blast
    have "\<forall>k < length (c # pre). match_here (drop k (c # cs)) = None"
    proof (intro allI impI)
      fix k assume "k < length (c # pre)"
      then show "match_here (drop k (c # cs)) = None"
        using None first by (cases k) auto
    qed
    with cs mh show ?thesis
      by (intro exI [of _ "c # pre"] exI [of _ post]) simp
  qed
qed

lemma re_search_None: "re_search s = None \<Longrightarrow> match_here (drop k s) = None"
proof (induction s arbitrary: k)
  case Nil then show ?case by (simp add: match_here_def)
next
  case (Cons c cs)
  then show ?case by (cases k) (auto split: option.splits)
qed

lemma match_here_occurs: "match_here (drop k s) \<noteq> None \<longleftrightarrow> pattern_occurs s k"
proof
  assume "match_here (drop k s) \<noteq> None"
  then obtain a b where "match_here (drop k s) = Some (a, b)" by auto
  then show "pattern_occurs s k"
    unfolding match_here_Some pattern_occurs_def token_pair_def by blast
next
  assume "pattern_occurs s k"
  then show "match_here (drop k s) \<noteq> None"
    unfolding pattern_occurs_def token_pair_def using match_here_complete by auto
qed

lemma re_search_leftmost:
  assumes "re_search s = Some (a, b)"
  shows "\<exists>k post. drop k s = a @ 47 # b @ post \<and> k \<le> length s \<and> token_pair a b
           \<and> (post = [] \<or> \<not> is_token (hd post)) \<and> (\<forall>j<k. \<not> pattern_occurs s j)"
proof -
  from re_search_Some [OF assms] obtain pre post where
    s: "s = pre @ a @ 47 # b @ post" and m: "match_here (a @ 47 # b @ post) = Some (a, b)"
    and first: "\<forall>k < length pre. match_here (drop k s) = None" by blast
  from m obtain post' where eq: "a @ 47 # b @ post = a @ 47 # b @ post'"
    and tp: "token_pair a b" and e: "post' = [] \<or> \<not> is_token (hd post')"
    unfolding match_here_Some token_pair_def by blast
  from eq have "post' = post" by simp
  with e have e': "post = [] \<or> \<not> is_token (hd post)" by simp
  have "\<forall>j<length pre. \<not> pattern_occurs s j"
    using first match_here_occurs by blast
  moreover have "drop (length pre) s = a @ 47 # b @ post" using s by simp
  moreover have "length pre \<le> length s" using s by simp
  ultimately show ?thesis using tp e' by blast
qed

lemma re_search_None_iff: "re_search s = None \<longleftrightarrow> (\<forall>k. \<not> pattern_occurs s k)"
proof
  assume "re_search s = None"
  then show "\<forall>k. \<not> pattern_occurs s k"
    using re_search_None match_here_occurs by blast
next
  assume n: "\<forall>k. \<not> pattern_occurs s k"
  show "re_search s = None"
  proof (rule ccontr)
    assume "re_search s \<noteq> None"
    then obtain a b where "re_search s = Some (a, b)" by auto
    from re_search_leftmost [OF this] show False
      using n unfolding pattern_occurs_def by blast
  qed
qed

lemma re_search_groups_nonempty: "re_search s = Some (a, b) \<Longrightarrow> a \<noteq> [] \<and> b \<noteq> []"
  using re_search_leftmost unfolding token_pair_def by blast

lemma contains_any_mentions: "contains_any (py_lower t) ws = mentions t ws"
  by (simp add: contains_any_def mentions_def list_ex_iff py_in_sublist)

lemma fallback_owner: 
  "(case re_search t of Some (g1, g2) \<Rightarrow> g1 | None \<Rightarrow> []) \<noteq> [] \<longleftrightarrow> re_search t \<noteq> None"
  using re_search_groups_nonempty by (cases "re_search t") auto

subsection \<open>Dictionaries and the resolution of owner and repo\<close>

lemma map_of_dict_set: "map_of (dict_set d k v) = (map_of d)(k \<mapsto> v)"
  by (induction d) auto

lemma py_split_from_no_sep: "47 \<notin> set s \<Longrightarrow> py_split_from [47] cur s = [cur @ s]"
proof (induction s arbitrary: cur)
  case Nil
  show ?case by (subst py_split_from.simps) simp
next
  case (Cons c cs)
  then show ?case by (subst py_split_from.simps) simp
qed

lemma py_split_from_sep:
  "47 \<notin> set a \<Longrightarrow> py_split_from [47] cur (a @ 47 # r) = (cur @ a) # py_split_from [47] [] r"
proof (induction a arbitrary: cur)
  case Nil
  show ?case by (subst py_split_from.simps) simp
next
  case (Cons c cs)
  then show ?case by (subst py_split_from.simps) simp
qed

lemma py_split_segments:
  assumes "splits_as v a b"
  shows "\<exists>more. py_split v [47] = a # b # more"
proof -
  from assms obtain rest where v: "v = a @ 47 # b @ rest" and a: "47 \<notin> set a" and b: "47 \<notin> set b"
    and r: "rest = [] \<or> hd rest = 47" unfolding splits_as_def by blast
  have 1: "py_split v [47] = a # py_split_from [47] [] (b @ rest)"
    unfolding py_split_def v using py_split_from_sep [OF a, of "[]"] by simp
  show ?thesis
  proof (cases rest)
    case Nil
    then show ?thesis using 1 py_split_from_no_sep [OF b, of "[]"] by simp
  next
    case (Cons x xs)
    with r have "x = 47" by simp
    then show ?thesis using 1 Cons py_split_from_sep [OF b, of "[]" xs] by simp
  qed
qed

lemma splits_as_has_slash: "splits_as v a b \<Longrightarrow> py_in [47] v \<and> v \<noteq> []"
  unfolding splits_as_def py_in_sublist sublist_def by (metis append_Cons append_Nil Nil_is_append_conv list.distinct(1))

lemma scan_key_split:
  assumes "map_of p key = Some (JStr v)" "splits_as v a b"
  shows "scan_key p key = Inr (Some (py_strip a, py_strip b))"
proof -
  from py_split_segments [OF assms(2)] obtain more where "py_split v [47] = a # b # more" ..
  then show ?thesis
    using assms(1) splits_as_has_slash [OF assms(2)]
    by (simp add: scan_key_def dict_get_default_def)
qed

lemma scan_key_slashless: "slashless p key \<Longrightarrow> scan_key p key = Inr None"
  by (auto simp: slashless_def scan_key_def dict_get_default_def Let_def split: option.splits)

lemma scan_key_cong: "map_of p key = map_of p' key \<Longrightarrow> scan_key p key = scan_key p' key"
  by (simp add: scan_key_def dict_get_default_def)

lemma scan_keys_cong:
  "\<forall>k\<in>set ks. map_of p k = map_of p' k \<Longrightarrow> scan_keys p ks = scan_keys p' ks"
proof (induction ks)
  case Nil
  show ?case by simp
next
  case (Cons k ks)
  then have "scan_key p k = scan_key p' k" "scan_keys p ks = scan_keys p' ks"
    by (auto intro: scan_key_cong)
  then show ?case by (simp split: sum.splits option.splits)
qed

lemma get_owner_repo_cong:
  assumes "\<forall>k\<in>{U ''owner'', U ''repo'', U ''repository''}. map_of p k = map_of p' k"
  shows "get_owner_repo (JObj p) = get_owner_repo (JObj p')"
proof -
  have "scan_keys p [U ''owner'', U ''repo'', U ''repository'']
      = scan_keys p' [U ''owner'', U ''repo'', U ''repository'']"
    using assms by (intro scan_keys_cong) simp
  moreover have "dict_get_default p (U ''owner'') (JStr []) = dict_get_default p' (U ''owner'') (JStr [])"
    "dict_get_default p (U ''repo'') (JStr []) = dict_get_default p' (U ''repo'') (JStr [])"
    using assms by (auto simp: dict_get_default_def)
  ultimately show ?thesis by (simp add: get_owner_repo_def)
qed

subsection \<open>The enrichment step\<close>

lemma token_run_unique:
  assumes "a @ 47 # r = a' @ 47 # r'" "\<forall>c\<in>set a. is_token c" "\<forall>c\<in>set a'. is_token c"
  shows "a = a' \<and> r = r'"
proof -
  have "takeWhile is_token (a @ 47 # r) = a" "dropWhile is_token (a @ 47 # r) = 47 # r"
    using takeWhile_run [OF assms(2), of "47 # r"] is_token_slash by simp_all
  moreover have "takeWhile is_token (a' @ 47 # r') = a'" "dropWhile is_token (a' @ 47 # r') = 47 # r'"
    using takeWhile_run [OF assms(3), of "47 # r'"] is_token_slash by simp_all
  ultimately show ?thesis using assms(1) by simp
qed

lemma first_match_re_search:
  assumes "first_match text a b"
  shows "re_search text = Some (a, b)"
proof -
  from assms obtain k post where d: "drop k text = a @ 47 # b @ post" and tp: "token_pair a b"
    and e: "post = [] \<or> \<not> is_token (hd post)" and first: "\<forall>j<k. \<not> pattern_occurs text j"
    unfolding first_match_def by blast
  have occ: "pattern_occurs text k" unfolding pattern_occurs_def using d tp by blast
  then have "re_search text \<noteq> None" using re_search_None_iff by blast
  then obtain a' b' where rs: "re_search text = Some (a', b')" by auto
  from re_search_leftmost [OF rs] obtain k' post' where
    d': "drop k' text = a' @ 47 # b' @ post'" and tp': "token_pair a' b'"
    and e': "post' = [] \<or> \<not> is_token (hd post')" and first': "\<forall>j<k'. \<not> pattern_occurs text j"
    by blast
  have occ': "pattern_occurs text k'" unfolding pattern_occurs_def using d' tp' by blast
  have "k = k'" using first first' occ occ' by (meson linorder_neqE_nat)
  with d d' have eq: "a @ 47 # b @ post = a' @ 47 # b' @ post'" by simp
  from token_run_unique [OF eq] tp tp' have aa: "a = a'" and rest: "b @ post = b' @ post'"
    unfolding token_pair_def by auto
  have "takeWhile is_token (b @ post) = b" using takeWhile_run [of b is_token post] tp e
    unfolding token_pair_def by simp
  moreover have "takeWhile is_token (b' @ post') = b'" using takeWhile_run [of b' is_token post'] tp' e'
    unfolding token_pair_def by simp
  ultimately have "b = b'" using rest by simp
  with aa rs show ?thesis by simp
qed

lemma needs_repair_invalid: "needs_repair p \<Longrightarrow> has_valid_owner_repo p = Inr False"
  by (auto simp: needs_repair_def has_valid_owner_repo_def dict_get_def dict_get_default_def
      split: option.splits)

lemma enrich_intent_repairs:
  assumes "map_of d (U ''params'') = Some (JObj p)" "needs_repair p" "re_search text = Some (a, b)"
  shows "enrich_intent text (JObj d) =
     Inr (dict_set d (U ''params'')
            (JObj (dict_set (dict_set p (U ''owner'') (JStr a)) (U ''repo'') (JStr b))))"
  using assms needs_repair_invalid [OF assms(2)]
  by (simp add: enrich_intent_def dict_get_default_def dict_item_def)

lemma enrich_intent_keeps:
  assumes "map_of d (U ''params'') = Some (JObj p)"
    "has_valid_owner_repo p = Inr True \<or> (needs_repair p \<and> re_search text = None)"
  shows "enrich_intent text (JObj d) = Inr d"
  using assms needs_repair_invalid [of p]
  by (auto simp: enrich_intent_def dict_get_default_def)

lemma re_search_first_match: "re_search text = Some (a, b) \<Longrightarrow> first_match text a b"
  unfolding first_match_def using re_search_leftmost by blast

subsection \<open>Dispatch\<close>

lemma string_valued_lookup:
  "string_valued p \<Longrightarrow> map_of p k = Some v \<Longrightarrow> \<exists>s. v = JStr s"
  by (auto simp: string_valued_def list_all_iff is_str_def dest!: map_of_SomeD split: json.splits)

lemma string_valued_default:
  "string_valued p \<Longrightarrow> \<exists>s. dict_get_default p k (JStr []) = JStr s"
  using string_valued_lookup [of p k]
  by (cases "map_of p k") (auto simp: dict_get_default_def)

lemma scan_key_string_valued: "string_valued p \<Longrightarrow> \<exists>r. scan_key p k = Inr r"
proof -
  assume "string_valued p"
  then obtain s where s: "dict_get_default p k (JStr []) = JStr s"
    using string_valued_default by blast
  show ?thesis
    by (cases "py_in [47] s") (auto simp: scan_key_def s Let_def split: list.splits)
qed

lemma scan_keys_string_valued: "string_valued p \<Longrightarrow> \<exists>r. scan_keys p ks = Inr r"
proof (induction ks)
  case Nil
  show ?case by simp
next
  case (Cons k ks)
  from scan_key_string_valued [OF Cons.prems, of k] obtain r where "scan_key p k = Inr r" ..
  with Cons show ?case by (cases r) auto
qed

lemma get_owner_repo_string_valued:
  assumes "string_valued p"
  shows "\<exists>owner repo. get_owner_repo (JObj p) = Inr (owner, repo)"
proof -
  from scan_keys_string_valued [OF assms] obtain r where
    r: "scan_keys p [U ''owner'', U ''repo'', U ''repository''] = Inr r" by blast
  from string_valued_default [OF assms] obtain so sr where
    "dict_get_default p (U ''owner'') (JStr []) = JStr so"
    "dict_get_default p (U ''repo'') (JStr []) = JStr sr" by blast
  then show ?thesis using r
    by (cases r) (auto simp: get_owner_repo_def strip_or_empty_def strip_value_def)
qed

lemma owner_repo_actions_known: "a \<in> set owner_repo_actions \<Longrightarrow> a \<in> set action_names"
  by (auto simp: owner_repo_actions_def action_names_def)

lemma U_eq_iff: "U a = U b \<longleftrightarrow> a = b"
  unfolding U_def by (rule inj_map_eq_map) (simp add: inj_on_def)

lemma run_action_refuses:
  assumes "a \<in> set owner_repo_actions" "owner = [] \<or> repo = []"
  shows "\<exists>msg. run_action w p owner repo a = refuse msg"
proof -
  have c: "(owner \<noteq> [] \<and> repo \<noteq> []) = False" using assms(2) by simp
  from assms(1) consider "a = U ''get_repo''" | "a = U ''list_issues''" | "a = U ''list_prs''"
    | "a = U ''list_branches''" | "a = U ''list_commits''" | "a = U ''create_issue''"
    unfolding owner_repo_actions_def by auto
  then show ?thesis
  proof cases
    case 1 then show ?thesis by (auto simp: run_action_def U_eq_iff c)
  next
    case 2 then show ?thesis by (auto simp: run_action_def U_eq_iff c)
  next
    case 3 then show ?thesis by (auto simp: run_action_def U_eq_iff c)
  next
    case 4 then show ?thesis by (auto simp: run_action_def U_eq_iff c)
  next
    case 5 then show ?thesis by (auto simp: run_action_def U_eq_iff c)
  next
    case 6 then show ?thesis by (auto simp: run_action_def U_eq_iff c)
  qed
qed

lemma run_action_search_refuses:
  "\<not> truthy (dict_get p (U ''query''))
     \<Longrightarrow> run_action w p owner repo (U ''search_repos'') = refuse (U ''Informe o termo de busca'')"
  by (simp add: run_action_def U_eq_iff)

subsection \<open>The brace scanner\<close>




lemma closes_at_end_nonempty: "closes_at_end d cs \<Longrightarrow> cs \<noteq> []"
  by (cases cs) auto


subsection \<open>Code fences\<close>










subsection \<open>The text handed to the decoder\<close>







section \<open>Evaluation of the definitions on concrete inputs\<close>

lemmas eval_fallback = fallback_parse_def U_def py_lower_def lower_cp_def match_here_def
  is_token_def fallback_action_def contains_any_def issue_terms_def branch_terms_def
  commit_terms_def pr_terms_def repo_terms_def search_terms_def my_repos_terms_def
  dict_get_def dict_get_default_def

lemmas eval_resolve = get_owner_repo_def scan_key_def dict_get_default_def dict_get_def
  strip_or_empty_def strip_value_def py_split_def py_strip_def py_isspace_def U_def

lemmas eval_enrich = enrich_intent_def has_valid_owner_repo_def dict_item_def match_here_def
  is_token_def

lemmas eval_candidate = json_candidate_def py_strip_def py_isspace_def fence_def py_split_def
  second_def


section \<open>The confidence of an unknown action\<close>

text \<open>
  Claim C5, as stated, fails: on the text \<open>hello\<close> the fallback classifier answers
  \<open>unknown\<close> with confidence \<open>0.3\<close>, which is not below \<open>0.3\<close>.
\<close>

theorem fallback_unknown_not_below_threshold:
  "dict_get (fallback_parse (U ''hello'')) (U ''action'') = JStr (U ''unknown'')
   \<and> below_threshold (dict_get (fallback_parse (U ''hello'')) (U ''confidence'')) = Inr False"
  by (simp add: eval_fallback float_0_3_def)

text \<open>
  Claim C5, amended: every Intent of the fallback path carries the confidence \<open>0.3\<close> or
  \<open>0.7\<close>, never a value below \<open>0.3\<close>, whatever its action; an Intent of that path with
  action \<open>unknown\<close> is rejected by the gate all the same, by the gate's test of the action.
\<close>

theorem fallback_unknown_confidence:
  "dict_get (fallback_parse t) (U ''confidence'') \<in> {JFloat (Fin float_0_3), JFloat (Fin float_0_7)}
   \<and> below_threshold (dict_get (fallback_parse t) (U ''confidence'')) = Inr False
   \<and> (dict_get (fallback_parse t) (U ''action'') = JStr (U ''unknown'')
        \<longrightarrow> gate_rejects (fallback_parse t) = Inr True)"
  by (simp add: fallback_parse_def Let_def dict_get_def U_def gate_rejects_def
      float_0_3_def float_0_7_def)

text \<open>Witness for C5: the text \<open>hello\<close> is classified \<open>unknown\<close> and rejected.\<close>

theorem fallback_unknown_confidence_witness:
  "dict_get (fallback_parse (U ''hello'')) (U ''action'') = JStr (U ''unknown'')
   \<and> gate_rejects (fallback_parse (U ''hello'')) = Inr True"
  using fallback_unknown_confidence [of "U ''hello''"] by (simp add: eval_fallback)

section \<open>The fallback classifier\<close>

text \<open>
  Claim C6: the fallback classifier chooses its action by keyword tests on the lower-case
  text, in the order issues, branches, commits, pull requests, repository (only when the
  owner/repo pattern occurs in the text), search, own repositories, and \<open>unknown\<close>
  otherwise; its confidence is \<open>0.7\<close> when the pattern occurs in the text and \<open>0.3\<close>
  otherwise. The tests do not depend on letter case: an occurrence in the text of any
  string whose lower-case form is a keyword counts as a mention.
\<close>

theorem fallback_precedence:
  "dict_get (fallback_parse t) (U ''action'') = JStr
     (if mentions t issue_terms then U ''list_issues''
      else if mentions t branch_terms then U ''list_branches''
      else if mentions t commit_terms then U ''list_commits''
      else if mentions t pr_terms then U ''list_prs''
      else if mentions t repo_terms \<and> (\<exists>k. pattern_occurs t k) then U ''get_repo''
      else if mentions t search_terms then U ''search_repos''
      else if mentions t my_repos_terms then U ''list_repos''
      else U ''unknown'')
   \<and> dict_get (fallback_parse t) (U ''confidence'') =
       JFloat (Fin (if \<exists>k. pattern_occurs t k then float_0_7 else float_0_3))
   \<and> (\<forall>u ws. py_lower u \<in> set ws \<and> sublist u t \<longrightarrow> mentions t ws)"
proof (intro conjI allI impI)
  have o: "(case re_search t of Some (g1, g2) \<Rightarrow> g1 | None \<Rightarrow> []) \<noteq> [] \<longleftrightarrow> (\<exists>k. pattern_occurs t k)"
    using fallback_owner re_search_None_iff by simp
  show "dict_get (fallback_parse t) (U ''action'') = JStr
     (if mentions t issue_terms then U ''list_issues''
      else if mentions t branch_terms then U ''list_branches''
      else if mentions t commit_terms then U ''list_commits''
      else if mentions t pr_terms then U ''list_prs''
      else if mentions t repo_terms \<and> (\<exists>k. pattern_occurs t k) then U ''get_repo''
      else if mentions t search_terms then U ''search_repos''
      else if mentions t my_repos_terms then U ''list_repos''
      else U ''unknown'')"
    unfolding fallback_parse_def Let_def fallback_action_def contains_any_mentions o
    by (simp add: dict_get_def)
  have c: "((case re_search t of Some (g1, g2) \<Rightarrow> g1 | None \<Rightarrow> []) \<noteq> []
        \<and> (case re_search t of Some (g1, g2) \<Rightarrow> g2 | None \<Rightarrow> []) \<noteq> []) \<longleftrightarrow> (\<exists>k. pattern_occurs t k)"
  proof (cases "re_search t")
    case None
    have "\<not> (\<exists>k. pattern_occurs t k)" using None re_search_None_iff [of t] by blast
    then show ?thesis by (simp add: None)
  next
    case (Some m)
    obtain a b where m: "m = (a, b)" by (cases m)
    have "\<exists>k. pattern_occurs t k" using Some re_search_None_iff [of t] by auto
    then show ?thesis using Some m re_search_groups_nonempty [of t a b] by simp
  qed
  show "dict_get (fallback_parse t) (U ''confidence'') =
       JFloat (Fin (if \<exists>k. pattern_occurs t k then float_0_7 else float_0_3))"
    unfolding fallback_parse_def Let_def c by (simp add: dict_get_def U_def)
next
  fix u ws assume "py_lower u \<in> set ws \<and> sublist u t"
  then show "mentions t ws" unfolding mentions_def using sublist_py_lower by blast
qed

text \<open>
  Witness for C6: \<open>Issues do microsoft/vscode\<close> mentions an issue term (in another letter
  case) and contains the pattern, so it is classified \<open>list_issues\<close> with confidence \<open>0.7\<close>.
\<close>

theorem fallback_precedence_witness:
  "mentions (U ''Issues do microsoft/vscode'') issue_terms
   \<and> (\<exists>k. pattern_occurs (U ''Issues do microsoft/vscode'') k)
   \<and> dict_get (fallback_parse (U ''Issues do microsoft/vscode'')) (U ''action'') = JStr (U ''list_issues'')
   \<and> dict_get (fallback_parse (U ''Issues do microsoft/vscode'')) (U ''confidence'') = JFloat (Fin float_0_7)"
proof -
  let ?t = "U ''Issues do microsoft/vscode''"
  note th = fallback_precedence [of ?t]
  have "py_in (U ''Issue'') ?t" by (simp add: U_def)
  then have sub: "sublist (U ''Issue'') ?t" by (simp only: py_in_sublist)
  have low: "py_lower (U ''Issue'') \<in> set issue_terms"
    by (simp add: py_lower_def lower_cp_def U_def issue_terms_def)
  from th sub low have m: "mentions ?t issue_terms" by blast
  have "drop 10 ?t = U ''microsoft'' @ 47 # U ''vscode'' @ []" by (simp add: U_def)
  moreover have "token_pair (U ''microsoft'') (U ''vscode'')"
    by (simp add: token_pair_def is_token_def U_def)
  ultimately have p: "\<exists>k. pattern_occurs ?t k" unfolding pattern_occurs_def by blast
  from th m p show ?thesis by simp
qed

section \<open>Resolution of owner and repo at dispatch\<close>

text \<open>
  Claim C8, as stated, fails: a value with an embedded \<open>/\<close> under a key other than
  \<open>owner\<close>, \<open>repo\<close> and \<open>repository\<close> is not looked at; here \<open>query\<close> holds
  \<open>torvalds/linux\<close> and the resolved pair is empty.
\<close>

theorem resolution_ignores_other_keys:
  "get_owner_repo (JObj [(U ''query'', JStr (U ''torvalds/linux''))]) = Inr ([], [])"
  by (simp add: eval_resolve)

text \<open>
  Claim C8, amended: at dispatch the resolution reads the parameters \<open>owner\<close>, \<open>repo\<close> and
  \<open>repository\<close> only, in this order; the first of them whose value is a string with an
  embedded \<open>/\<close> gives the pair, namely its first two segments between slashes, stripped;
  when none of the three holds a \<open>/\<close>, the pair is the stripped \<open>owner\<close> and \<open>repo\<close>
  values (empty when absent).
\<close>

theorem resolution_scans_three_keys:
  "((\<forall>k\<in>{U ''owner'', U ''repo'', U ''repository''}. map_of p k = map_of p' k)
      \<longrightarrow> get_owner_repo (JObj p) = get_owner_repo (JObj p'))
   \<and> (map_of p (U ''owner'') = Some (JStr v) \<and> splits_as v a b
      \<longrightarrow> get_owner_repo (JObj p) = Inr (py_strip a, py_strip b))
   \<and> (slashless p (U ''owner'') \<and> map_of p (U ''repo'') = Some (JStr v) \<and> splits_as v a b
      \<longrightarrow> get_owner_repo (JObj p) = Inr (py_strip a, py_strip b))
   \<and> (slashless p (U ''owner'') \<and> slashless p (U ''repo'')
        \<and> map_of p (U ''repository'') = Some (JStr v) \<and> splits_as v a b
      \<longrightarrow> get_owner_repo (JObj p) = Inr (py_strip a, py_strip b))
   \<and> (slashless p (U ''owner'') \<and> slashless p (U ''repo'') \<and> slashless p (U ''repository'')
      \<longrightarrow> get_owner_repo (JObj p) =
            (case strip_or_empty (dict_get_default p (U ''owner'') (JStr [])) of
               Inl e \<Rightarrow> Inl e
             | Inr ow \<Rightarrow>
                 (case strip_or_empty (dict_get_default p (U ''repo'') (JStr [])) of
                    Inl e \<Rightarrow> Inl e
                  | Inr re \<Rightarrow> Inr (ow, re))))"
proof (intro conjI impI)
  assume "\<forall>k\<in>{U ''owner'', U ''repo'', U ''repository''}. map_of p k = map_of p' k"
  then show "get_owner_repo (JObj p) = get_owner_repo (JObj p')" by (rule get_owner_repo_cong)
next
  assume "map_of p (U ''owner'') = Some (JStr v) \<and> splits_as v a b"
  then have "scan_key p (U ''owner'') = Inr (Some (py_strip a, py_strip b))"
    by (auto intro: scan_key_split)
  then show "get_owner_repo (JObj p) = Inr (py_strip a, py_strip b)"
    by (simp add: get_owner_repo_def)
next
  assume h: "slashless p (U ''owner'') \<and> map_of p (U ''repo'') = Some (JStr v) \<and> splits_as v a b"
  then have "scan_key p (U ''repo'') = Inr (Some (py_strip a, py_strip b))"
    by (auto intro: scan_key_split)
  with h show "get_owner_repo (JObj p) = Inr (py_strip a, py_strip b)"
    by (simp add: get_owner_repo_def scan_key_slashless)
next
  assume h: "slashless p (U ''owner'') \<and> slashless p (U ''repo'')
        \<and> map_of p (U ''repository'') = Some (JStr v) \<and> splits_as v a b"
  then have "scan_key p (U ''repository'') = Inr (Some (py_strip a, py_strip b))"
    by (auto intro: scan_key_split)
  with h show "get_owner_repo (JObj p) = Inr (py_strip a, py_strip b)"
    by (simp add: get_owner_repo_def scan_key_slashless)
next
  assume "slashless p (U ''owner'') \<and> slashless p (U ''repo'') \<and> slashless p (U ''repository'')"
  then show "get_owner_repo (JObj p) =
            (case strip_or_empty (dict_get_default p (U ''owner'') (JStr [])) of
               Inl e \<Rightarrow> Inl e
             | Inr ow \<Rightarrow>
                 (case strip_or_empty (dict_get_default p (U ''repo'') (JStr [])) of
                    Inl e \<Rightarrow> Inl e
                  | Inr re \<Rightarrow> Inr (ow, re)))"
    by (simp add: get_owner_repo_def scan_key_slashless)
qed

text \<open>
  Witness for C8: with only a combined \<open>repository\<close> field, the pair comes from its two
  segments.
\<close>

theorem resolution_scans_three_keys_witness:
  "slashless [(U ''repository'', JStr (U ''facebook/react ''))] (U ''owner'')
   \<and> slashless [(U ''repository'', JStr (U ''facebook/react ''))] (U ''repo'')
   \<and> splits_as (U ''facebook/react '') (U ''facebook'') (U ''react '')
   \<and> get_owner_repo (JObj [(U ''repository'', JStr (U ''facebook/react ''))])
       = Inr (U ''facebook'', U ''react'')"
proof -
  let ?p = "[(U ''repository'', JStr (U ''facebook/react ''))]"
  have 1: "slashless ?p (U ''owner'')" "slashless ?p (U ''repo'')"
    by (simp_all add: slashless_def U_def)
  have "U ''facebook/react '' = U ''facebook'' @ 47 # U ''react '' @ []" by (simp add: U_def)
  moreover have "47 \<notin> set (U ''facebook'')" "47 \<notin> set (U ''react '')" by (simp_all add: U_def)
  ultimately have 2: "splits_as (U ''facebook/react '') (U ''facebook'') (U ''react '')"
    unfolding splits_as_def by blast
  have 3: "map_of ?p (U ''repository'') = Some (JStr (U ''facebook/react ''))" by simp
  have 4: "py_strip (U ''facebook'') = U ''facebook''" "py_strip (U ''react '') = U ''react''"
    by (simp_all add: py_strip_def py_isspace_def U_def)
  from resolution_scans_three_keys [of ?p ?p "U ''facebook/react ''" "U ''facebook''" "U ''react ''"]
    1 2 3 4 show ?thesis by simp
qed

section \<open>The parameter normalizer\<close>

text \<open>
  Claim C7, as stated, fails: the enrichment step leaves an \<open>owner\<close> value \<open>a/b/c\<close> as it
  is when the text holds no match, and the resolution at dispatch cuts the value at every
  \<open>/\<close>, so that the repo is \<open>b\<close>, not \<open>b/c\<close>.
\<close>

theorem normalizer_keeps_unsplit_value:
  "enrich_intent (U ''hello'') (JObj [(U ''params'', JObj [(U ''owner'', JStr (U ''a/b/c''))])])
     = Inr [(U ''params'', JObj [(U ''owner'', JStr (U ''a/b/c''))])]
   \<and> get_owner_repo (JObj [(U ''owner'', JStr (U ''a/b/c''))]) = Inr (U ''a'', U ''b'')"
  by (simp add: eval_enrich eval_resolve)

text \<open>
  Claim C7, amended: the enrichment step never splits a parameter value. When \<open>params\<close> is
  present and \<open>owner\<close> or \<open>repo\<close> is absent or empty, or \<open>owner\<close> holds a \<open>/\<close>, it sets
  \<open>owner\<close> and \<open>repo\<close> to the two groups of the first match of token/token in the raw text
  and keeps every other parameter; without a match, or when \<open>owner\<close> and \<open>repo\<close> are
  already valid, it returns the intent unchanged. The split happens at dispatch: an
  \<open>owner\<close> value with an embedded \<open>/\<close> is cut at every \<open>/\<close> and its first two segments,
  stripped, become owner and repo.
\<close>

theorem normalizer_repairs_from_text:
  "(map_of d (U ''params'') = Some (JObj p) \<and> needs_repair p \<and> first_match text a b
      \<longrightarrow> (\<exists>d' p'. enrich_intent text (JObj d) = Inr d'
             \<and> map_of d' = (map_of d)(U ''params'' \<mapsto> JObj p')
             \<and> map_of p' = (map_of p)(U ''owner'' \<mapsto> JStr a, U ''repo'' \<mapsto> JStr b)))
   \<and> (map_of d (U ''params'') = Some (JObj p) \<and> needs_repair p \<and> (\<forall>k. \<not> pattern_occurs text k)
      \<longrightarrow> enrich_intent text (JObj d) = Inr d)
   \<and> (map_of d (U ''params'') = Some (JObj p) \<and> has_valid_owner_repo p = Inr True
      \<longrightarrow> enrich_intent text (JObj d) = Inr d)
   \<and> (map_of p (U ''owner'') = Some (JStr v) \<and> splits_as v a b
      \<longrightarrow> get_owner_repo (JObj p) = Inr (py_strip a, py_strip b))"
proof (intro conjI impI)
  assume h: "map_of d (U ''params'') = Some (JObj p) \<and> needs_repair p \<and> first_match text a b"
  then have "re_search text = Some (a, b)" by (simp add: first_match_re_search)
  with h have "enrich_intent text (JObj d) =
     Inr (dict_set d (U ''params'')
            (JObj (dict_set (dict_set p (U ''owner'') (JStr a)) (U ''repo'') (JStr b))))"
    by (simp add: enrich_intent_repairs)
  then show "\<exists>d' p'. enrich_intent text (JObj d) = Inr d'
             \<and> map_of d' = (map_of d)(U ''params'' \<mapsto> JObj p')
             \<and> map_of p' = (map_of p)(U ''owner'' \<mapsto> JStr a, U ''repo'' \<mapsto> JStr b)"
    by (intro exI [of _ "dict_set d (U ''params'')
            (JObj (dict_set (dict_set p (U ''owner'') (JStr a)) (U ''repo'') (JStr b)))"]
        exI [of _ "dict_set (dict_set p (U ''owner'') (JStr a)) (U ''repo'') (JStr b)"])
      (simp add: map_of_dict_set)
next
  assume h: "map_of d (U ''params'') = Some (JObj p) \<and> needs_repair p \<and> (\<forall>k. \<not> pattern_occurs text k)"
  then have "re_search text = None" using re_search_None_iff by blast
  with h show "enrich_intent text (JObj d) = Inr d" by (simp add: enrich_intent_keeps)
next
  assume "map_of d (U ''params'') = Some (JObj p) \<and> has_valid_owner_repo p = Inr True"
  then show "enrich_intent text (JObj d) = Inr d" by (simp add: enrich_intent_keeps)
next
  assume "map_of p (U ''owner'') = Some (JStr v) \<and> splits_as v a b"
  then have "scan_key p (U ''owner'') = Inr (Some (py_strip a, py_strip b))"
    by (auto intro: scan_key_split)
  then show "get_owner_repo (JObj p) = Inr (py_strip a, py_strip b)"
    by (simp add: get_owner_repo_def)
qed

text \<open>
  Witness for C7: with empty parameters and a text with two matches, the first match
  \<open>x/y\<close> is taken.
\<close>

theorem normalizer_repairs_from_text_witness:
  "needs_repair [] \<and> first_match (U ''see x/y or a/b'') (U ''x'') (U ''y'')
   \<and> (\<exists>d' p'. enrich_intent (U ''see x/y or a/b'')
                 (JObj [(U ''action'', JStr (U ''get_repo'')), (U ''params'', JObj [])]) = Inr d'
        \<and> map_of d' = (map_of [(U ''action'', JStr (U ''get_repo'')), (U ''params'', JObj [])])
                         (U ''params'' \<mapsto> JObj p')
        \<and> map_of p' = (map_of [])(U ''owner'' \<mapsto> JStr (U ''x''), U ''repo'' \<mapsto> JStr (U ''y'')))"
proof -
  let ?d = "[(U ''action'', JStr (U ''get_repo'')), (U ''params'', JObj [])]"
  have 1: "needs_repair []" by (simp add: needs_repair_def dict_get_def)
  have "re_search (U ''see x/y or a/b'') = Some (U ''x'', U ''y'')"
    by (simp add: match_here_def is_token_def U_def)
  then have 2: "first_match (U ''see x/y or a/b'') (U ''x'') (U ''y'')"
    by (rule re_search_first_match)
  have 3: "map_of ?d (U ''params'') = Some (JObj [])" by (simp add: U_def)
  from normalizer_repairs_from_text [of ?d "[]" "U ''see x/y or a/b''" "U ''x''" "U ''y''"] 1 2 3
  show ?thesis by blast
qed

section \<open>The model-backed classifier\<close>



text \<open>
  Claim C10: when the response decodes to an object without the key \<open>params\<close> and the raw
  text contains the pattern token/token, the enrichment step raises \<open>KeyError\<close> at
  \<open>intent["params"]\<close>, the handler catches it, and \<open>parse_intent\<close> returns the fallback
  result; the action and the confidence of the model are lost.
\<close>

theorem missing_params_falls_back:
  "chat w text = JStr r \<and> json_candidate r = Inr js \<and> json_loads w js = Some (JObj d)
     \<and> map_of d (U ''params'') = None \<and> (\<exists>k. pattern_occurs text k)
   \<longrightarrow> parse_intent_try w (JStr r) text = Inl (KeyError (U ''params''))
       \<and> parse_intent w text = fallback_parse text"
proof
  assume h: "chat w text = JStr r \<and> json_candidate r = Inr js \<and> json_loads w js = Some (JObj d)
     \<and> map_of d (U ''params'') = None \<and> (\<exists>k. pattern_occurs text k)"
  then have "re_search text \<noteq> None" using re_search_None_iff by blast
  then obtain a b where rs: "re_search text = Some (a, b)" by auto
  have "has_valid_owner_repo [] = Inr False" by (simp add: has_valid_owner_repo_def dict_get_def)
  with h rs have "enrich_intent text (JObj d) = Inl (KeyError (U ''params''))"
    by (simp add: enrich_intent_def dict_get_default_def dict_item_def)
  with h have t: "parse_intent_try w (JStr r) text = Inl (KeyError (U ''params''))"
    by (simp add: parse_intent_try_def)
  with h show "parse_intent_try w (JStr r) text = Inl (KeyError (U ''params''))
       \<and> parse_intent w text = fallback_parse text"
    by (simp add: parse_intent_def)
qed

text \<open>
  Witness for C10: the model answers \<open>get_repo\<close> with confidence \<open>1.0\<close> and no \<open>params\<close>;
  on the text \<open>show facebook/react\<close> the result is the fallback's, whose action is
  \<open>unknown\<close>.
\<close>

theorem missing_params_falls_back_witness:
  "json_candidate (U ''{\"action\": \"get_repo\", \"confidence\": 1.0}'')
     = Inr (U ''{\"action\": \"get_repo\", \"confidence\": 1.0}'')
   \<and> (\<exists>k. pattern_occurs (U ''show facebook/react'') k)
   \<and> parse_intent
         (sample_world (JStr (U ''{\"action\": \"get_repo\", \"confidence\": 1.0}''))
            [(U ''{\"action\": \"get_repo\", \"confidence\": 1.0}'',
              JObj [(U ''action'', JStr (U ''get_repo'')), (U ''confidence'', JFloat (Fin 1))])]
            JNull)
         (U ''show facebook/react'')
       = fallback_parse (U ''show facebook/react'')
   \<and> dict_get (fallback_parse (U ''show facebook/react'')) (U ''action'') = JStr (U ''unknown'')"
proof -
  let ?r = "U ''{\"action\": \"get_repo\", \"confidence\": 1.0}''"
  let ?d = "[(U ''action'', JStr (U ''get_repo'')), (U ''confidence'', JFloat (Fin 1))]"
  let ?w = "sample_world (JStr ?r) [(?r, JObj ?d)] JNull"
  let ?t = "U ''show facebook/react''"
  have 1: "json_candidate ?r = Inr ?r" by (simp add: eval_candidate U_def)
  have 2: "json_loads ?w ?r = Some (JObj ?d)" by (simp add: sample_world_def)
  have 3: "chat ?w ?t = JStr ?r" by (simp add: sample_world_def)
  have 4: "map_of ?d (U ''params'') = None" by (simp add: U_def)
  have "re_search ?t \<noteq> None" by (simp add: match_here_def is_token_def U_def)
  then have 5: "\<exists>k. pattern_occurs ?t k" unfolding re_search_None_iff by simp
  have 6: "dict_get (fallback_parse ?t) (U ''action'') = JStr (U ''unknown'')"
    by (simp add: eval_fallback)
  from missing_params_falls_back [of ?w ?t ?r ?r ?d] 1 2 3 4 5 6 show ?thesis by simp
qed

section \<open>The action dispatcher\<close>

text \<open>
  Claim C4: for an Intent whose action is one of \<open>get_repo\<close>, \<open>list_issues\<close>, \<open>list_prs\<close>,
  \<open>list_branches\<close>, \<open>list_commits\<close>, \<open>create_issue\<close> and whose resolved owner or repo is
  empty, and for \<open>search_repos\<close> with an empty query, the dispatcher returns an Error
  Record and invokes no remote operation. The resolution of owner and repo itself always
  succeeds on the parameters of an Intent, whose values are strings.
\<close>

theorem missing_parameters_refused:
  "(map_of it (U ''action'') = Some (JStr a) \<and> a \<in> set owner_repo_actions
      \<and> get_owner_repo (dict_get_default it (U ''params'') (JObj [])) = Inr (owner, repo)
      \<and> (owner = [] \<or> repo = [])
     \<longrightarrow> (\<exists>msg. execute w it = Inr (error_record msg, [])))
   \<and> (map_of it (U ''action'') = Some (JStr (U ''search_repos''))
      \<and> dict_get_default it (U ''params'') (JObj []) = JObj p \<and> string_valued p
      \<and> \<not> truthy (dict_get p (U ''query''))
     \<longrightarrow> execute w it = Inr (error_record (U ''Informe o termo de busca''), []))
   \<and> (string_valued p \<longrightarrow> (\<exists>owner repo. get_owner_repo (JObj p) = Inr (owner, repo)))"
proof (intro conjI impI)
  assume h: "map_of it (U ''action'') = Some (JStr a) \<and> a \<in> set owner_repo_actions
      \<and> get_owner_repo (dict_get_default it (U ''params'') (JObj [])) = Inr (owner, repo)
      \<and> (owner = [] \<or> repo = [])"
  then obtain q where q: "dict_get_default it (U ''params'') (JObj []) = JObj q"
    by (cases "dict_get_default it (U ''params'') (JObj [])") (auto simp: get_owner_repo_def)
  from h obtain msg where m: "run_action w q owner repo a = refuse msg"
    using run_action_refuses by blast
  have act: "dict_get_default it (U ''action'') (JStr (U ''unknown'')) = JStr a"
    using h by (simp add: dict_get_default_def)
  have "execute w it = Inr (error_record msg, [])"
    using h q m act owner_repo_actions_known [of a]
    by (simp add: execute_def refuse_def)
  then show "\<exists>msg. execute w it = Inr (error_record msg, [])" ..
next
  assume h: "map_of it (U ''action'') = Some (JStr (U ''search_repos''))
      \<and> dict_get_default it (U ''params'') (JObj []) = JObj p \<and> string_valued p
      \<and> \<not> truthy (dict_get p (U ''query''))"
  then obtain owner repo where g: "get_owner_repo (JObj p) = Inr (owner, repo)"
    using get_owner_repo_string_valued by blast
  have act: "dict_get_default it (U ''action'') (JStr (U ''unknown'')) = JStr (U ''search_repos'')"
    using h by (simp add: dict_get_default_def)
  have known: "U ''search_repos'' \<in> set action_names" by (simp add: action_names_def)
  show "execute w it = Inr (error_record (U ''Informe o termo de busca''), [])"
    using h g act known run_action_search_refuses [of p w owner repo]
    by (simp add: execute_def refuse_def)
next
  assume "string_valued p"
  then show "\<exists>owner repo. get_owner_repo (JObj p) = Inr (owner, repo)"
    by (rule get_owner_repo_string_valued)
qed

text \<open>
  Witness for C4: \<open>list_issues\<close> with empty owner and repo is refused without a remote
  operation.
\<close>

theorem missing_parameters_refused_witness:
  "U ''list_issues'' \<in> set owner_repo_actions
   \<and> get_owner_repo (JObj [(U ''owner'', JStr []), (U ''repo'', JStr [])]) = Inr ([], [])
   \<and> (\<exists>msg. execute (sample_world JNull [] JNull)
          [(U ''action'', JStr (U ''list_issues'')),
           (U ''params'', JObj [(U ''owner'', JStr []), (U ''repo'', JStr [])]),
           (U ''confidence'', JFloat (Fin float_0_3))]
        = Inr (error_record msg, []))"
proof -
  let ?p = "[(U ''owner'', JStr []), (U ''repo'', JStr [])]"
  let ?it = "[(U ''action'', JStr (U ''list_issues'')), (U ''params'', JObj ?p),
           (U ''confidence'', JFloat (Fin float_0_3))]"
  have 1: "U ''list_issues'' \<in> set owner_repo_actions" by (simp add: owner_repo_actions_def)
  have 2: "get_owner_repo (JObj ?p) = Inr ([], [])" by (simp add: eval_resolve)
  have 3: "map_of ?it (U ''action'') = Some (JStr (U ''list_issues''))" by simp
  have 4: "dict_get_default ?it (U ''params'') (JObj []) = JObj ?p"
    by (simp add: dict_get_default_def U_eq_iff)
  from missing_parameters_refused [of ?it "U ''list_issues''" "[]" "[]" "sample_world JNull [] JNull"]
    1 2 3 4 show ?thesis by simp
qed

section \<open>The response formatter\<close>

text \<open>
  Claim C9: on an Error Record the formatter returns the error prefix followed by the
  record's message and sends nothing to the model; on any other result it sends exactly
  one prompt, which ends with the serialized result cut at 3000 characters, and returns
  what the completion call returns. The formatter is a total function: it never raises,
  and a failure of the model reaches the caller as the text that \<open>generate\<close> returns.
\<close>

theorem formatter_bypasses_model_on_errors:
  "(is_error_record data \<longrightarrow>
      (\<exists>d. data = JObj d
         \<and> format_response w action data
             = (JStr (error_prefix @ py_str w (dict_get d (U ''error''))), [])
         \<and> (\<forall>m. dict_get d (U ''error'') = JStr m \<longrightarrow> py_str w (dict_get d (U ''error'')) = m)))
   \<and> (\<not> is_error_record data \<longrightarrow>
      (\<exists>head. format_response w action data
                 = (generate w (head @ take 3000 (json_dumps w data)),
                    [head @ take 3000 (json_dumps w data)]))
      \<and> length (take 3000 (json_dumps w data)) \<le> 3000)"
proof (intro conjI impI)
  assume e: "is_error_record data"
  then obtain d where d: "data = JObj d" and h: "dict_has d (U ''error'')"
    by (cases data) (auto simp: is_error_record_def)
  then have "format_response w action data
      = (JStr (error_prefix @ py_str w (dict_get d (U ''error''))), [])"
    by (simp add: format_response_def)
  moreover have "\<forall>m. dict_get d (U ''error'') = JStr m \<longrightarrow> py_str w (dict_get d (U ''error'')) = m"
    by (simp add: py_str_def)
  ultimately show "\<exists>d. data = JObj d
         \<and> format_response w action data
             = (JStr (error_prefix @ py_str w (dict_get d (U ''error''))), [])
         \<and> (\<forall>m. dict_get d (U ''error'') = JStr m \<longrightarrow> py_str w (dict_get d (U ''error'')) = m)"
    using d by blast
next
  assume n: "\<not> is_error_record data"
  have "format_response w action data = render w action data"
    using n by (cases data) (auto simp: format_response_def is_error_record_def)
  then have "format_response w action data
      = (generate w (format_prompt (py_str w action) [] @ take 3000 (json_dumps w data)),
         [format_prompt (py_str w action) [] @ take 3000 (json_dumps w data)])"
    by (simp add: render_def format_prompt_def Let_def)
  then show "\<exists>head. format_response w action data
                 = (generate w (head @ take 3000 (json_dumps w data)),
                    [head @ take 3000 (json_dumps w data)])" ..
next
  show "length (take 3000 (json_dumps w data)) \<le> 3000" by simp
qed

text \<open>
  Witness for C9: a \<open>404\<close> Error Record is rendered without a completion call, and an
  empty list of repositories with exactly one.
\<close>

theorem formatter_bypasses_model_on_errors_witness:
  "is_error_record (error_record (U ''HTTP 404: Not Found''))
   \<and> format_response (sample_world JNull [] JNull) (JStr (U ''get_repo''))
        (error_record (U ''HTTP 404: Not Found''))
       = (JStr (error_prefix @ U ''HTTP 404: Not Found''), [])
   \<and> \<not> is_error_record (JArr [])
   \<and> (\<exists>head. format_response (sample_world JNull [] JNull) (JStr (U ''list_repos'')) (JArr [])
        = (JStr (U ''ok''), [head @ U ''{}'']))"
proof -
  let ?w = "sample_world JNull [] JNull"
  let ?e = "error_record (U ''HTTP 404: Not Found'')"
  have 1: "is_error_record ?e" by (simp add: is_error_record_def error_record_def dict_has_def)
  have 2: "\<not> is_error_record (JArr [])" by (simp add: is_error_record_def)
  have 3: "dict_get [(U ''error'', JStr (U ''HTTP 404: Not Found''))] (U ''error'')
      = JStr (U ''HTTP 404: Not Found'')" by (simp add: dict_get_def)
  have 4: "take 3000 (json_dumps ?w (JArr [])) = U ''{}''" "generate ?w = (\<lambda>_. JStr (U ''ok''))"
    by (simp_all add: sample_world_def U_def)
  from formatter_bypasses_model_on_errors [of ?e ?w "JStr (U ''get_repo'')"] 1 3
  have a: "format_response ?w (JStr (U ''get_repo'')) ?e
       = (JStr (error_prefix @ U ''HTTP 404: Not Found''), [])"
    by (auto simp: error_record_def)
  from formatter_bypasses_model_on_errors [of "JArr []" ?w "JStr (U ''list_repos'')"] 2 4
  have b: "\<exists>head. format_response ?w (JStr (U ''list_repos'')) (JArr [])
        = (JStr (U ''ok''), [head @ U ''{}''])" by simp
  from 1 2 a b show ?thesis by blast
qed

section \<open>The pipeline\<close>

text \<open>
  Whenever \<open>process\<close> returns an envelope, the envelope follows the gate: it is a failure
  exactly when the gate rejects the classified intent, a rejection leaves no event behind
  and carries the guidance message, and an accepted intent is dispatched first.
\<close>

lemma process_envelope:
  assumes "process w text = Inr (env, events)"
  shows "(success env \<longleftrightarrow> gate_rejects (parse_intent w text) = Inr False)
    \<and> (\<not> success env \<longrightarrow> events = [] \<and> message env = Some guidance)
    \<and> (success env \<longrightarrow> events \<noteq> [] \<and> hd events = Dispatch (parse_intent w text))"
  using assms
  by (auto simp: process_def Let_def split: sum.splits bool.splits prod.splits)

text \<open>
  Claim C1 on a failing input. The model answers \<open>{"params": {}, "confidence": 1.0}\<close> to
  the text \<open>hello\<close>. The gate accepts the intent (its action is absent, hence not
  \<open>unknown\<close>, and its confidence is not below \<open>0.3\<close>), the dispatcher returns the Error
  Record of an unrecognised action, and \<open>intent["action"]\<close> then raises \<open>KeyError\<close>:
  \<open>process\<close> returns no envelope.
\<close>

theorem process_raises_without_action:
  "gate_rejects [(U ''params'', JObj []), (U ''confidence'', JFloat (Fin 1))] = Inr False
   \<and> process
       (sample_world (JStr (U ''{\"params\": {}, \"confidence\": 1.0}''))
          [(U ''{\"params\": {}, \"confidence\": 1.0}'',
            JObj [(U ''params'', JObj []), (U ''confidence'', JFloat (Fin 1))])]
          JNull)
       (U ''hello'')
     = Inl (KeyError (U ''action''))"
proof -
  let ?r = "U ''{\"params\": {}, \"confidence\": 1.0}''"
  let ?d = "[(U ''params'', JObj []), (U ''confidence'', JFloat (Fin 1))]"
  let ?w = "sample_world (JStr ?r) [(?r, JObj ?d)] JNull"
  have c: "json_candidate ?r = Inr ?r" by (simp add: eval_candidate U_def)
  have n: "re_search (U ''hello'') = None" by (simp add: match_here_def is_token_def U_def)
  have e: "enrich_intent (U ''hello'') (JObj ?d) = Inr ?d"
    by (simp add: eval_enrich dict_get_default_def dict_get_def U_eq_iff n)
  have p: "parse_intent ?w (U ''hello'') = ?d"
    by (simp add: parse_intent_def parse_intent_try_def sample_world_def c e)
  have g: "gate_rejects ?d = Inr False"
    by (simp add: gate_rejects_def dict_get_def dict_get_default_def U_eq_iff float_0_3_def)
  have o: "get_owner_repo (JObj []) = Inr ([], [])"
    by (simp add: get_owner_repo_def scan_key_def dict_get_default_def strip_or_empty_def)
  have x: "execute ?w ?d = Inr (error_record unrecognised, [])"
    by (simp add: execute_def dict_get_default_def U_eq_iff o action_names_def)
  have i: "dict_item ?d (U ''action'') = Inl (KeyError (U ''action''))"
    by (simp add: dict_item_def U_eq_iff)
  show ?thesis by (simp add: process_def p g x i)
qed

section \<open>Extraction of the JSON span\<close>




end
